theory Spec2Isabelle
  imports Complex_Main "HOL-Library.AList"
begin

section \<open>JavaScript strings\<close>

text \<open>
  A JavaScript string is a sequence of UTF-16 code units, and \<open>length\<close>, \<open>substring\<close>,
  \<open>indexOf\<close> and the regular expressions of the source (none has the \<open>u\<close> flag) all
  work on code units. A string is therefore a list of code units, each a natural number.
\<close>

type_synonym jsstring = "nat list"

definition js :: "string \<Rightarrow> jsstring" where
  "js s = map of_char s"

text \<open>Truthiness of an optional string: \<open>undefined\<close> and \<open>""\<close> are falsy.\<close>

fun truthy :: "jsstring option \<Rightarrow> bool" where
  "truthy None = False"
| "truthy (Some s) = (s \<noteq> [])"

subsection \<open>Character classes\<close>

definition is_digit :: "nat \<Rightarrow> bool" where
  "is_digit c = (48 \<le> c \<and> c \<le> 57)"

definition is_upper :: "nat \<Rightarrow> bool" where
  "is_upper c = (65 \<le> c \<and> c \<le> 90)"

definition is_lower :: "nat \<Rightarrow> bool" where
  "is_lower c = (97 \<le> c \<and> c \<le> 122)"

text \<open>\<open>\w\<close> is \<open>[A-Za-z0-9_]\<close>.\<close>

definition is_word :: "nat \<Rightarrow> bool" where
  "is_word c = (is_digit c \<or> is_upper c \<or> is_lower c \<or> c = 95)"

text \<open>
  \<open>\s\<close> and \<open>trim\<close> share one set: the WhiteSpace and LineTerminator code points of
  ECMAScript.
\<close>

definition is_space :: "nat \<Rightarrow> bool" where
  "is_space c = (c = 9 \<or> c = 10 \<or> c = 11 \<or> c = 12 \<or> c = 13 \<or> c = 32 \<or> c = 160
     \<or> c = 5760 \<or> (8192 \<le> c \<and> c \<le> 8202) \<or> c = 8232 \<or> c = 8233 \<or> c = 8239
     \<or> c = 8287 \<or> c = 12288 \<or> c = 65279)"

text \<open>\<open>.\<close> matches every code unit but the four line terminators.\<close>

definition is_dot :: "nat \<Rightarrow> bool" where
  "is_dot c = (c \<noteq> 10 \<and> c \<noteq> 13 \<and> c \<noteq> 8232 \<and> c \<noteq> 8233)"

definition only :: "nat \<Rightarrow> nat \<Rightarrow> bool" where
  "only a c = (c = a)"

text \<open>
  A letter under the \<open>i\<close> flag. Without the \<open>u\<close> flag a code unit above 127 is never
  canonicalised to an ASCII letter, so an ASCII letter of a pattern matches exactly its
  two ASCII cases. The argument is the lower-case letter.
\<close>

definition ci :: "nat \<Rightarrow> nat \<Rightarrow> bool" where
  "ci a c = (c = a \<or> c + 32 = a)"

subsection \<open>String methods\<close>

definition trim :: "jsstring \<Rightarrow> jsstring" where
  "trim s = rev (dropWhile is_space (rev (dropWhile is_space s)))"

text \<open>\<open>s.substring(0, n)\<close>\<close>

definition substring0 :: "jsstring \<Rightarrow> nat \<Rightarrow> jsstring" where
  "substring0 s n = take n s"

fun startsWith :: "jsstring \<Rightarrow> jsstring \<Rightarrow> bool" where
  "startsWith s [] = True"
| "startsWith [] (p # ps) = False"
| "startsWith (x # xs) (p # ps) = (x = p \<and> startsWith xs ps)"

text \<open>\<open>s.indexOf(p)\<close>: the first index where \<open>p\<close> occurs, or \<open>-1\<close>.\<close>

fun indexOfFrom :: "jsstring \<Rightarrow> jsstring \<Rightarrow> nat \<Rightarrow> int" where
  "indexOfFrom [] p i = (if p = [] then int i else -1)"
| "indexOfFrom (x # xs) p i =
     (if startsWith (x # xs) p then int i else indexOfFrom xs p (Suc i))"

definition indexOf :: "jsstring \<Rightarrow> jsstring \<Rightarrow> int" where
  "indexOf s p = indexOfFrom s p 0"

definition includesStr :: "jsstring \<Rightarrow> jsstring \<Rightarrow> bool" where
  "includesStr s p = (indexOf s p \<noteq> -1)"

text \<open>\<open>s.split(' ')\<close> with a one-character string separator.\<close>

fun splitOn :: "nat \<Rightarrow> jsstring \<Rightarrow> jsstring \<Rightarrow> jsstring list" where
  "splitOn sep cur [] = [rev cur]"
| "splitOn sep cur (x # xs) =
     (if x = sep then rev cur # splitOn sep [] xs else splitOn sep (x # cur) xs)"

definition splitStr :: "jsstring \<Rightarrow> nat \<Rightarrow> jsstring list" where
  "splitStr s sep = splitOn sep [] s"

text \<open>\<open>xs.join(' ')\<close>\<close>

fun join :: "jsstring list \<Rightarrow> jsstring \<Rightarrow> jsstring" where
  "join [] sep = []"
| "join [x] sep = x"
| "join (x # y # ys) sep = x @ sep @ join (y # ys) sep"

text \<open>
  \<open>parseInt(s, 10)\<close> on a string of decimal digits (the only use in the source is on a
  \<open>\d+\<close> capture). The value is exact here; the source rounds to a double above \<open>2^53\<close>.
\<close>

definition parseInt :: "jsstring \<Rightarrow> int" where
  "parseInt s = int (foldl (\<lambda>acc c. 10 * acc + (c - 48)) 0 s)"

section \<open>Regular expressions\<close>

text \<open>
  The regular expressions of the source as syntax trees, and a backtracking matcher in
  the continuation style of the ECMAScript specification: a matcher takes the state and
  a continuation, and alternatives are tried in the priority order of the language.
  Quantifiers other than \<open>?\<close> are applied only to single-character atoms in the source,
  which \<open>Rep\<close> reflects; every group under \<open>?\<close> in the source consumes at least one
  code unit.
\<close>

datatype re =
    Chr "nat \<Rightarrow> bool"
  | Cat re re
  | Alt re re
  | Eps
  | Rep "nat \<Rightarrow> bool" nat "nat option" bool
  | Opt re
  | Cap nat re
  | Bol
  | Eol
  | Wb
  | Ahead re

text \<open>
  The match state: the text before the current position (reversed), the text from the
  current position on, and the captures.
\<close>

datatype mstate = MS (before: jsstring) (rest: jsstring) (caps: "nat \<Rightarrow> jsstring option")

fun dec :: "nat option \<Rightarrow> nat option" where
  "dec None = None"
| "dec (Some n) = Some (n - 1)"

text \<open>Greedy \<open>{mn,mx}\<close> on a class: take one more code unit first, give it back on failure.\<close>

fun repG :: "(nat \<Rightarrow> bool) \<Rightarrow> nat \<Rightarrow> nat option \<Rightarrow> (mstate \<Rightarrow> 'a option) \<Rightarrow>
    jsstring \<Rightarrow> jsstring \<Rightarrow> (nat \<Rightarrow> jsstring option) \<Rightarrow> 'a option" where
  "repG p mn mx k b [] c = (if mn = 0 then k (MS b [] c) else None)"
| "repG p mn mx k b (x # xs) c =
     (if mx \<noteq> Some 0 \<and> p x then
        (case repG p (mn - 1) (dec mx) k (x # b) xs c of
           Some r \<Rightarrow> Some r
         | None \<Rightarrow> if mn = 0 then k (MS b (x # xs) c) else None)
      else if mn = 0 then k (MS b (x # xs) c) else None)"

text \<open>Lazy \<open>{mn,mx}?\<close> on a class: try the continuation first, take one more on failure.\<close>

fun repL :: "(nat \<Rightarrow> bool) \<Rightarrow> nat \<Rightarrow> nat option \<Rightarrow> (mstate \<Rightarrow> 'a option) \<Rightarrow>
    jsstring \<Rightarrow> jsstring \<Rightarrow> (nat \<Rightarrow> jsstring option) \<Rightarrow> 'a option" where
  "repL p mn mx k b [] c = (if mn = 0 then k (MS b [] c) else None)"
| "repL p mn mx k b (x # xs) c =
     (case (if mn = 0 then k (MS b (x # xs) c) else None) of
        Some r \<Rightarrow> Some r
      | None \<Rightarrow> if mx \<noteq> Some 0 \<and> p x then repL p (mn - 1) (dec mx) k (x # b) xs c else None)"

fun run :: "re \<Rightarrow> (mstate \<Rightarrow> mstate option) \<Rightarrow> mstate \<Rightarrow> mstate option" where
  "run (Chr p) k s =
     (case rest s of
        [] \<Rightarrow> None
      | x # xs \<Rightarrow> if p x then k (MS (x # before s) xs (caps s)) else None)"
| "run (Cat a b) k s = run a (\<lambda>s'. run b k s') s"
| "run (Alt a b) k s = (case run a k s of Some r \<Rightarrow> Some r | None \<Rightarrow> run b k s)"
| "run Eps k s = k s"
| "run (Rep p mn mx g) k s =
     (if g then repG p mn mx k (before s) (rest s) (caps s)
      else repL p mn mx k (before s) (rest s) (caps s))"
| "run (Opt a) k s = (case run a k s of Some r \<Rightarrow> Some r | None \<Rightarrow> k s)"
| "run (Cap n a) k s =
     run a (\<lambda>s'. k (MS (before s') (rest s')
                  ((caps s')(n := Some (take (length (rest s) - length (rest s')) (rest s))))))
       s"
| "run Bol k s = (if before s = [] then k s else None)"
| "run Eol k s = (if rest s = [] then k s else None)"
| "run Wb k s =
     (if (case before s of [] \<Rightarrow> False | x # xs \<Rightarrow> is_word x)
         \<noteq> (case rest s of [] \<Rightarrow> False | x # xs \<Rightarrow> is_word x)
      then k s else None)"
| "run (Ahead a) k s =
     (case run a Some s of
        None \<Rightarrow> None
      | Some s' \<Rightarrow> k (MS (before s) (rest s) (caps s')))"

text \<open>
  A match anchored at the current position (as with \<open>lastIndex\<close> under the sticky flag):
  the number of code units consumed and the captures.
\<close>

definition matchAt :: "re \<Rightarrow> jsstring \<Rightarrow> jsstring \<Rightarrow> (nat \<times> (nat \<Rightarrow> jsstring option)) option" where
  "matchAt r b xs =
     (case run r Some (MS b xs (\<lambda>n. None)) of
        None \<Rightarrow> None
      | Some s \<Rightarrow> Some (length xs - length (rest s), caps s))"

text \<open>
  \<open>RegExp.prototype.exec\<close> from \<open>lastIndex = 0\<close>: the first start position, left to right,
  at which the pattern matches. The result is the start index, the matched text and the
  captures.
\<close>

record rmatch =
  mindex :: nat
  mtext :: jsstring
  mgroup :: "nat \<Rightarrow> jsstring option"

fun execFrom :: "re \<Rightarrow> jsstring \<Rightarrow> jsstring \<Rightarrow> rmatch option" where
  "execFrom r b [] =
     (case matchAt r b [] of
        None \<Rightarrow> None
      | Some (n, c) \<Rightarrow> Some \<lparr>mindex = length b, mtext = [], mgroup = c\<rparr>)"
| "execFrom r b (x # xs) =
     (case matchAt r b (x # xs) of
        None \<Rightarrow> execFrom r (x # b) xs
      | Some (n, c) \<Rightarrow> Some \<lparr>mindex = length b, mtext = take n (x # xs), mgroup = c\<rparr>)"

definition exec :: "re \<Rightarrow> jsstring \<Rightarrow> rmatch option" where
  "exec r s = execFrom r [] s"

definition test :: "re \<Rightarrow> jsstring \<Rightarrow> bool" where
  "test r s = (exec r s \<noteq> None)"

text \<open>\<open>s.replace(r, '')\<close> for a pattern without the \<open>g\<close> flag: the first match is removed.\<close>

definition removeFirst :: "re \<Rightarrow> jsstring \<Rightarrow> jsstring" where
  "removeFirst r s =
     (case exec r s of
        None \<Rightarrow> s
      | Some mt \<Rightarrow> take (mindex mt) s @ drop (mindex mt + length (mtext mt)) s)"

text \<open>
  \<open>s.replace(r, rep)\<close> for a pattern with the \<open>g\<close> flag: matches are found left to right
  and do not overlap; an empty match is replaced and the search moves on by one code
  unit. \<open>skip\<close> counts the code units of the current match still to be dropped.
\<close>

fun replaceAllFrom :: "re \<Rightarrow> jsstring \<Rightarrow> jsstring \<Rightarrow> jsstring \<Rightarrow> nat \<Rightarrow> jsstring" where
  "replaceAllFrom r rep b [] skip =
     (if skip = 0 \<and> matchAt r b [] \<noteq> None then rep else [])"
| "replaceAllFrom r rep b (x # xs) skip =
     (if 0 < skip then replaceAllFrom r rep (x # b) xs (skip - 1)
      else case matchAt r b (x # xs) of
             None \<Rightarrow> x # replaceAllFrom r rep (x # b) xs 0
           | Some (n, c) \<Rightarrow>
               if n = 0 then rep @ x # replaceAllFrom r rep (x # b) xs 0
               else rep @ replaceAllFrom r rep (x # b) xs (n - 1))"

definition replaceAll :: "re \<Rightarrow> jsstring \<Rightarrow> jsstring \<Rightarrow> jsstring" where
  "replaceAll r rep s = replaceAllFrom r rep [] s 0"

text \<open>
  \<open>s.split(r)\<close> for a pattern without capture groups, after the loop of
  \<open>RegExp.prototype[Symbol.split]\<close>: \<open>p\<close> is the start of the current piece, \<open>q\<close> the
  position tried; a match at \<open>q\<close> that ends at \<open>p\<close> is skipped.
\<close>

function splitLoop :: "re \<Rightarrow> jsstring \<Rightarrow> nat \<Rightarrow> nat \<Rightarrow> jsstring list" where
  "splitLoop r s p q =
     (if q < length s then
        (case matchAt r (rev (take q s)) (drop q s) of
           None \<Rightarrow> splitLoop r s p (q + 1)
         | Some (n, c) \<Rightarrow>
             (let e = min (q + n) (length s) in
              if e = p then splitLoop r s p (q + 1)
              else take (q - p) (drop p s) # splitLoop r s e e))
      else [drop p s])"
  by pat_completeness auto
termination
  by (relation "measures [\<lambda>(r, s, p, q). length s - q, \<lambda>(r, s, p, q). if p = q then 0 else 1]")
     (auto split: if_splits)

definition splitRe :: "jsstring \<Rightarrow> re \<Rightarrow> jsstring list" where
  "splitRe s r =
     (if s = [] then (if matchAt r [] [] \<noteq> None then [] else [s])
      else splitLoop r s 0 0)"

text \<open>Pattern builders.\<close>

fun lit :: "jsstring \<Rightarrow> re" where
  "lit [] = Eps"
| "lit [c] = Chr (only c)"
| "lit (c # cs) = Cat (Chr (only c)) (lit cs)"

fun lit_ci :: "jsstring \<Rightarrow> re" where
  "lit_ci [] = Eps"
| "lit_ci [c] = Chr (ci c)"
| "lit_ci (c # cs) = Cat (Chr (ci c)) (lit_ci cs)"

fun cats :: "re list \<Rightarrow> re" where
  "cats [] = Eps"
| "cats [r] = r"
| "cats (r # rs) = Cat r (cats rs)"

definition star0 :: "(nat \<Rightarrow> bool) \<Rightarrow> re" where
  "star0 p = Rep p 0 None True"

definition plus1 :: "(nat \<Rightarrow> bool) \<Rightarrow> re" where
  "plus1 p = Rep p 1 None True"

definition opt1 :: "(nat \<Rightarrow> bool) \<Rightarrow> re" where
  "opt1 p = Rep p 0 (Some 1) True"

definition exactly :: "nat \<Rightarrow> (nat \<Rightarrow> bool) \<Rightarrow> re" where
  "exactly n p = Rep p n (Some n) True"

definition ch :: "char \<Rightarrow> nat \<Rightarrow> bool" where
  "ch a c = (c = of_char a)"

definition oneOf :: "jsstring \<Rightarrow> nat \<Rightarrow> bool" where
  "oneOf s c = (c \<in> set s)"

definition noneOf :: "jsstring \<Rightarrow> nat \<Rightarrow> bool" where
  "noneOf s c = (c \<notin> set s)"

section \<open>The reference records (src/lib/db.ts)\<close>

record ParsedReference =
  ref_index :: int
  ref_text :: jsstring
  ref_doi :: "jsstring option"
  ref_authors :: "jsstring option"
  ref_title :: "jsstring option"
  ref_year :: "jsstring option"

record Creator =
  firstName :: "jsstring option"
  lastName :: jsstring

text \<open>Of \<open>ReferenceItem\<close>, the fields the matcher reads.\<close>

record ReferenceItem =
  item_id :: jsstring
  item_title :: jsstring
  item_creators :: "Creator list"
  item_date :: "jsstring option"
  item_doi :: "jsstring option"

section \<open>Reference extraction (src/lib/graphUtils.ts, lines 167 to 432)\<close>

text \<open>\<open>/10\.\d{4,9}\/[-._;()/:A-Z0-9]+/gi\<close>\<close>

definition doi_char :: "nat \<Rightarrow> bool" where
  "doi_char c = (oneOf (js ''-._;()/:'') c \<or> is_upper c \<or> is_lower c \<or> is_digit c)"

definition DOI_REGEX :: re where
  "DOI_REGEX = cats [lit (js ''10.''), Rep is_digit 4 (Some 9) True, Chr (ch CHR ''/''),
     plus1 doi_char]"

text \<open>
  The header patterns, in the order of the source:
  \<open>/^references?\s*$/i\<close>, \<open>/^bibliography\s*$/i\<close>, \<open>/^works?\s+cited\s*$/i\<close>,
  \<open>/^literature\s+cited\s*$/i\<close>, \<open>/^citations?\s*$/i\<close> and the two Chinese headers
  (U+53C2 U+8003 U+6587 U+732E and U+5F15 U+7528 U+6587 U+732E), case-sensitive.
\<close>

definition REFERENCE_SECTION_PATTERNS :: "re list" where
  "REFERENCE_SECTION_PATTERNS =
    [cats [Bol, lit_ci (js ''reference''), opt1 (ci 115), star0 is_space, Eol],
     cats [Bol, lit_ci (js ''bibliography''), star0 is_space, Eol],
     cats [Bol, lit_ci (js ''work''), opt1 (ci 115), plus1 is_space, lit_ci (js ''cited''),
           star0 is_space, Eol],
     cats [Bol, lit_ci (js ''literature''), plus1 is_space, lit_ci (js ''cited''),
           star0 is_space, Eol],
     cats [Bol, lit_ci (js ''citation''), opt1 (ci 115), star0 is_space, Eol],
     cats [Bol, lit [21442, 32771, 25991, 29486], star0 is_space, Eol],
     cats [Bol, lit [24341, 29992, 25991, 29486], star0 is_space, Eol]]"

text \<open>
  The number patterns, in the order of the source:
  \<open>/^\[(\d+)\]\s*/\<close>, \<open>/^(\d+)\.\s+/\<close>, \<open>/^\((\d+)\)\s*/\<close>, \<open>/^(\d+)\s+/\<close>.
\<close>

definition REFERENCE_NUMBER_PATTERNS :: "re list" where
  "REFERENCE_NUMBER_PATTERNS =
    [cats [Bol, Chr (ch CHR ''[''), Cap 1 (plus1 is_digit), Chr (ch CHR '']''), star0 is_space],
     cats [Bol, Cap 1 (plus1 is_digit), Chr (ch CHR ''.''), plus1 is_space],
     cats [Bol, Chr (ch CHR ''(''), Cap 1 (plus1 is_digit), Chr (ch CHR '')''), star0 is_space],
     cats [Bol, Cap 1 (plus1 is_digit), plus1 is_space]]"

subsection \<open>findReferencesSection\<close>

fun anyTest :: "re list \<Rightarrow> jsstring \<Rightarrow> bool" where
  "anyTest [] line = False"
| "anyTest (pattern # ps) line = (if test pattern line then True else anyTest ps line)"

text \<open>The loop over \<open>lines\<close>; the result is the returned number, \<open>-1\<close> when no line matches.\<close>

fun findInLines :: "jsstring \<Rightarrow> jsstring list \<Rightarrow> int" where
  "findInLines txt [] = -1"
| "findInLines txt (l # ls) =
     (let line = trim l in
      if anyTest REFERENCE_SECTION_PATTERNS line
      then indexOf txt line + int (length line)
      else findInLines txt ls)"

definition findReferencesSection :: "jsstring \<Rightarrow> int" where
  "findReferencesSection txt = findInLines txt (splitRe txt (Chr (oneOf [46, 10])))"

subsection \<open>parseReferences\<close>

text \<open>\<open>/(?=\[\d+\]|(?:^|\n)\d+\.|(?:^|\n)\(\d+\))/\<close>\<close>

definition numberedSplit :: re where
  "numberedSplit = Ahead
     (Alt (cats [Chr (ch CHR ''[''), plus1 is_digit, Chr (ch CHR '']'')])
     (Alt (cats [Alt Bol (Chr (only 10)), plus1 is_digit, Chr (ch CHR ''.'')])
          (cats [Alt Bol (Chr (only 10)), Chr (ch CHR ''(''), plus1 is_digit,
                 Chr (ch CHR '')'')])))"

text \<open>\<open>/(?=(?:^|\s)[A-Z][a-z]+,\s+[A-Z]\.[^.]{0,100}?\(\d{4}\))/\<close>\<close>

definition patternWithParen :: re where
  "patternWithParen = Ahead
     (cats [Alt Bol (Chr is_space), Chr is_upper, plus1 is_lower, Chr (ch CHR '',''),
            plus1 is_space, Chr is_upper, Chr (ch CHR ''.''),
            Rep (noneOf [46]) 0 (Some 100) False,
            Chr (ch CHR ''(''), exactly 4 is_digit, Chr (ch CHR '')'')])"

text \<open>\<open>/(?=(?:^|\s)[A-Z][a-z]{2,},\s+[A-Z]\.[^.]{0,100}?,\s+\d{4}\.)/\<close>\<close>

definition patternWithPeriod :: re where
  "patternWithPeriod = Ahead
     (cats [Alt Bol (Chr is_space), Chr is_upper, Rep is_lower 2 None True, Chr (ch CHR '',''),
            plus1 is_space, Chr is_upper, Chr (ch CHR ''.''),
            Rep (noneOf [46]) 0 (Some 100) False,
            Chr (ch CHR '',''), plus1 is_space, exactly 4 is_digit, Chr (ch CHR ''.'')])"

text \<open>\<open>/(?=\s[A-Z][a-z]{2,},\s+[A-Z]\.)/\<close>\<close>

definition patternSimple :: re where
  "patternSimple = Ahead
     (cats [Chr is_space, Chr is_upper, Rep is_lower 2 None True, Chr (ch CHR '',''),
            plus1 is_space, Chr is_upper, Chr (ch CHR ''.'')])"

text \<open>\<open>.filter(l => l.trim())\<close>\<close>

definition nonBlank :: "jsstring list \<Rightarrow> jsstring list" where
  "nonBlank ls = filter (\<lambda>l. trim l \<noteq> []) ls"

text \<open>The segmentation strategies: the next one is tried while fewer than 3 lines came out.\<close>

definition splitLines :: "jsstring \<Rightarrow> jsstring list" where
  "splitLines referencesText =
     (let lines = nonBlank (splitRe referencesText numberedSplit) in
      if length lines < 3 then
        (let lines = nonBlank (splitRe referencesText patternWithParen);
             lines = (if length lines < 3
                      then nonBlank (splitRe referencesText patternWithPeriod) else lines);
             lines = (if length lines < 3
                      then nonBlank (splitRe referencesText patternSimple) else lines)
         in lines)
      else lines)"

text \<open>\<open>/\b(\d{4})\b/\<close>, \<open>/\((\d{4})\)/\<close> and \<open>/,\s+(\d{4})\./\<close>\<close>

definition yearAny :: re where
  "yearAny = cats [Wb, Cap 1 (exactly 4 is_digit), Wb]"

definition yearParen :: re where
  "yearParen = cats [Chr (ch CHR ''(''), Cap 1 (exactly 4 is_digit), Chr (ch CHR '')'')]"

definition yearPeriod :: re where
  "yearPeriod = cats [Chr (ch CHR '',''), plus1 is_space, Cap 1 (exactly 4 is_digit),
     Chr (ch CHR ''.'')]"

text \<open>
  \<open>match[1]\<close> where group 1 takes part in every match of the pattern (the number patterns):
  the capture is never \<open>undefined\<close> there.
\<close>

definition group1 :: "rmatch \<Rightarrow> jsstring" where
  "group1 mt = (case mgroup mt 1 of None \<Rightarrow> [] | Some g \<Rightarrow> g)"

text \<open>
  The loop over \<open>REFERENCE_NUMBER_PATTERNS\<close> with its \<open>break\<close>: the index and the text after
  the first pattern that matches, the defaults when none does.
\<close>

fun stripNumber :: "re list \<Rightarrow> jsstring \<Rightarrow> int \<times> jsstring \<Rightarrow> int \<times> jsstring" where
  "stripNumber [] trimmed dflt = dflt"
| "stripNumber (pattern # ps) trimmed dflt =
     (case exec pattern trimmed of
        Some mt \<Rightarrow> (parseInt (group1 mt), trim (removeFirst pattern trimmed))
      | None \<Rightarrow> stripNumber ps trimmed dflt)"

text \<open>\<open>const doi = doiMatches ? doiMatches[0] : undefined\<close>\<close>

definition extractDoi :: "jsstring \<Rightarrow> jsstring option" where
  "extractDoi txt = (case exec DOI_REGEX txt of None \<Rightarrow> None | Some mt \<Rightarrow> Some (mtext mt))"

definition extractYear :: "jsstring \<Rightarrow> jsstring option" where
  "extractYear txt =
     (case exec yearParen txt of
        Some mt \<Rightarrow> mgroup mt 1
      | None \<Rightarrow>
          (case exec yearPeriod txt of
             Some mt \<Rightarrow> mgroup mt 1
           | None \<Rightarrow> (case exec yearAny txt of Some mt \<Rightarrow> mgroup mt 1 | None \<Rightarrow> None)))"

text \<open>
  \<open>new RegExp(`${year}[).]*\\s+["']?([^."]{10,150})["']?(?:\\.|In:)`)\<close>. The year is the
  capture of a \<open>(\d{4})\<close> group, so it stands for itself in the pattern.
\<close>

definition titlePattern :: "jsstring \<Rightarrow> re" where
  "titlePattern y = cats [lit y, star0 (oneOf (js '').'')), plus1 is_space, opt1 (oneOf [34, 39]),
     Cap 1 (Rep (noneOf [46, 34]) 10 (Some 150) True), opt1 (oneOf [34, 39]),
     Alt (Chr (ch CHR ''.'')) (lit (js ''In:''))]"

definition extractTitle :: "jsstring option \<Rightarrow> jsstring \<Rightarrow> jsstring option" where
  "extractTitle year txt =
     (case year of
        None \<Rightarrow> None
      | Some y \<Rightarrow>
          if y = [] then None
          else
            (case exec (titlePattern y) txt of
               None \<Rightarrow> None
             | Some afterYearMatch \<Rightarrow>
                 if truthy (mgroup afterYearMatch 1)
                 then Some (substring0 (trim (group1 afterYearMatch)) 200)
                 else None))"

text \<open>\<open>new RegExp(`(.+?)(?:\\(${year}\\)|,?\\s+${year}[.)])`)\<close>\<close>

definition authorPattern :: "jsstring \<Rightarrow> re" where
  "authorPattern y = cats [Cap 1 (Rep is_dot 1 None False),
     Alt (cats [Chr (ch CHR ''(''), lit y, Chr (ch CHR '')'')])
         (cats [opt1 (ch CHR '',''), plus1 is_space, lit y, Chr (oneOf (js ''.)''))])]"

text \<open>\<open>/^(and\s+|from\s+)?/\<close>\<close>

definition leadingAnd :: re where
  "leadingAnd = cats [Bol, Opt (Cap 1 (Alt (cats [lit (js ''and''), plus1 is_space])
                                          (cats [lit (js ''from''), plus1 is_space])))]"

definition extractAuthors :: "jsstring option \<Rightarrow> jsstring \<Rightarrow> jsstring option" where
  "extractAuthors year txt =
     (case year of
        None \<Rightarrow> None
      | Some y \<Rightarrow>
          if y = [] then None
          else
            (case exec (authorPattern y) txt of
               None \<Rightarrow> None
             | Some authorMatch \<Rightarrow>
                 if truthy (mgroup authorMatch 1)
                 then Some (substring0
                        (trim (replaceAll (plus1 is_space) (js '' '')
                           (removeFirst leadingAnd (group1 authorMatch)))) 250)
                 else None))"

text \<open>
  \<open>if (authors && (authors.length < 3 || /^\d/.test(authors))) authors = undefined\<close>
\<close>

definition checkAuthors :: "jsstring option \<Rightarrow> jsstring option" where
  "checkAuthors authors =
     (case authors of
        None \<Rightarrow> None
      | Some a \<Rightarrow>
          if a \<noteq> [] \<and> (length a < 3 \<or> test (cats [Bol, Chr is_digit]) a) then None
          else Some a)"

text \<open>
  The body of the loop over the lines: \<open>references\<close> after one more line, unchanged where
  the source says \<open>continue\<close>.
\<close>

definition processLine :: "ParsedReference list \<Rightarrow> jsstring \<Rightarrow> ParsedReference list" where
  "processLine references line =
     (let trimmed = trim line in
      if trimmed = [] \<or> length trimmed < 20 \<or> 1000 < length trimmed then references
      else if \<not> test yearAny trimmed then references
      else
        (let (index, txt) =
               stripNumber REFERENCE_NUMBER_PATTERNS trimmed (int (length references) + 1, trimmed);
             doi = extractDoi txt;
             year = extractYear txt;
             title = extractTitle year txt;
             authors = extractAuthors year txt
         in if \<not> truthy year then references
            else references @
              [\<lparr>ref_index = index, ref_text = substring0 txt 500, ref_doi = doi,
                ref_authors = checkAuthors authors, ref_title = title, ref_year = year\<rparr>]))"

definition parseReferences :: "jsstring \<Rightarrow> ParsedReference list" where
  "parseReferences referencesText = foldl processLine [] (splitLines referencesText)"

section \<open>Reference matching (src/components/ColumnSelector.tsx, lines 305 to 437)\<close>

text \<open>
  Two library functions are taken as parameters, since their results depend on the engine:
  \<open>String.prototype.toLowerCase\<close> (Unicode case tables) and
  \<open>new Date(s).getFullYear().toString()\<close> (the date parser and the local time zone).
  Numbers are modelled as exact reals; the source computes in double precision.
\<close>

record host =
  toLowerCase :: "jsstring \<Rightarrow> jsstring"
  fullYear :: "jsstring \<Rightarrow> jsstring"

text \<open>
  \<open>str.toLowerCase().replace(/[^\w\s]/g, ' ').replace(/\s+/g, ' ').trim()\<close>
\<close>

definition normalizeString :: "host \<Rightarrow> jsstring \<Rightarrow> jsstring" where
  "normalizeString h str =
     trim (replaceAll (plus1 is_space) (js '' '')
       (replaceAll (Chr (\<lambda>c. \<not> is_word c \<and> \<not> is_space c)) (js '' '')
          (toLowerCase h str)))"

text \<open>
  \<open>new Set(str.split(' ').filter(w => w.length > 2))\<close>: a set is kept as a list without
  duplicates, its \<open>size\<close> is the length.
\<close>

definition wordSet :: "jsstring \<Rightarrow> jsstring list" where
  "wordSet str = remdups (filter (\<lambda>w. 2 < length w) (splitStr str 32))"

definition fuzzyMatch :: "jsstring \<Rightarrow> jsstring \<Rightarrow> real" where
  "fuzzyMatch str1 str2 =
     (let words1 = wordSet str1; words2 = wordSet str2 in
      if words1 = [] \<and> words2 = [] then 1
      else if words1 = [] \<or> words2 = [] then 0
      else
        (let intersection = remdups (filter (\<lambda>w. w \<in> set words2) words1);
             union = remdups (words1 @ words2)
         in real (length intersection) / real (length union)))"

text \<open>
  The four blocks of \<open>calculateSimilarity\<close>, each taking and returning the pair
  \<open>(score, totalWeight)\<close>.
\<close>

definition doiStep :: "host \<Rightarrow> ParsedReference \<Rightarrow> ReferenceItem \<Rightarrow> real \<times> real \<Rightarrow> real \<times> real" where
  "doiStep h reference item acc =
     (case acc of (score, totalWeight) \<Rightarrow>
        (case (ref_doi reference, item_doi item) of
           (Some rd, Some idoi) \<Rightarrow>
             if rd \<noteq> [] \<and> idoi \<noteq> [] then
               (if toLowerCase h rd = toLowerCase h idoi then score + 10 else score,
                totalWeight + 10)
             else acc
         | _ \<Rightarrow> acc))"

definition yearStep :: "host \<Rightarrow> ParsedReference \<Rightarrow> ReferenceItem \<Rightarrow> real \<times> real \<Rightarrow> real \<times> real" where
  "yearStep h reference item acc =
     (case acc of (score, totalWeight) \<Rightarrow>
        (case (ref_year reference, item_date item) of
           (Some ry, Some d) \<Rightarrow>
             if ry \<noteq> [] \<and> d \<noteq> [] then
               (if ry = fullYear h d then score + 2 else score, totalWeight + 2)
             else acc
         | _ \<Rightarrow> acc))"

definition titleStep :: "host \<Rightarrow> ParsedReference \<Rightarrow> ReferenceItem \<Rightarrow> real \<times> real \<Rightarrow> real \<times> real" where
  "titleStep h reference item acc =
     (case acc of (score, totalWeight) \<Rightarrow>
        (case ref_title reference of
           Some rt \<Rightarrow>
             if rt \<noteq> [] \<and> item_title item \<noteq> [] then
               (score + fuzzyMatch (normalizeString h rt) (normalizeString h (item_title item)) * 5,
                totalWeight + 5)
             else acc
         | None \<Rightarrow> acc))"

text \<open>
  \<open>`${c.lastName} ${c.firstName}`.toLowerCase()\<close>: a missing first name prints as
  \<open>undefined\<close>.
\<close>

definition creatorName :: "host \<Rightarrow> Creator \<Rightarrow> jsstring" where
  "creatorName h c =
     toLowerCase h (lastName c @ js '' '' @
       (case firstName c of None \<Rightarrow> js ''undefined'' | Some f \<Rightarrow> f))"

definition authorStep :: "host \<Rightarrow> ParsedReference \<Rightarrow> ReferenceItem \<Rightarrow> real \<times> real \<Rightarrow> real \<times> real" where
  "authorStep h reference item acc =
     (case acc of (score, totalWeight) \<Rightarrow>
        (case (ref_authors reference, item_creators item) of
           (Some ra, firstAuthor # others) \<Rightarrow>
             if ra \<noteq> [] then
               (let refAuthors = normalizeString h ra;
                    itemAuthors = join (map (creatorName h) (firstAuthor # others)) (js '' '');
                    score = (if includesStr refAuthors (toLowerCase h (lastName firstAuthor))
                             then score + 3 / 2 else score);
                    authorSimilarity = fuzzyMatch refAuthors itemAuthors
                in (score + authorSimilarity * (3 / 2), totalWeight + 3))
             else acc
         | _ \<Rightarrow> acc))"

definition calculateSimilarity :: "host \<Rightarrow> ParsedReference \<Rightarrow> ReferenceItem \<Rightarrow> real" where
  "calculateSimilarity h reference item =
     (case authorStep h reference item
             (titleStep h reference item
                (yearStep h reference item
                   (doiStep h reference item (0, 0)))) of
        (score, totalWeight) \<Rightarrow> if totalWeight = 0 then 0 else score / totalWeight)"

record MatchResult =
  itemId :: jsstring
  similarity :: real
  mitem :: ReferenceItem

text \<open>The loop of \<open>findMatchingItems\<close> that fills \<open>matches\<close>.\<close>

fun collectMatches :: "host \<Rightarrow> ParsedReference \<Rightarrow> ReferenceItem list \<Rightarrow> MatchResult list \<Rightarrow>
    MatchResult list" where
  "collectMatches h reference [] matches = matches"
| "collectMatches h reference (it # its) matches =
     (let sim = calculateSimilarity h reference it in
      if 1 / 2 \<le> sim
      then collectMatches h reference its
             (matches @ [\<lparr>itemId = item_id it, similarity = sim, mitem = it\<rparr>])
      else collectMatches h reference its matches)"

text \<open>
  \<open>matches.sort((a, b) => b.similarity - a.similarity)\<close>: a stable sort, highest
  similarity first.
\<close>

definition findMatchingItems :: "host \<Rightarrow> ParsedReference \<Rightarrow> ReferenceItem list \<Rightarrow> MatchResult list" where
  "findMatchingItems h reference libraryItems =
     sort_key (\<lambda>mr. - similarity mr) (collectMatches h reference libraryItems [])"

text \<open>
  The \<open>Map\<close> of \<open>matchReferencesToLibrary\<close> is an association list in insertion order;
  \<open>Map.prototype.set\<close> replaces the value of a key that is there and appends a new key,
  as \<open>AList.update\<close> does, and \<open>Map.prototype.get\<close> is \<open>map_of\<close>.
\<close>

fun fillMatchMap :: "host \<Rightarrow> ParsedReference list \<Rightarrow> ReferenceItem list \<Rightarrow>
    (int \<times> MatchResult list) list \<Rightarrow> (int \<times> MatchResult list) list" where
  "fillMatchMap h [] libraryItems matchMap = matchMap"
| "fillMatchMap h (reference # rs) libraryItems matchMap =
     (let matches = findMatchingItems h reference libraryItems in
      if 0 < length matches
      then fillMatchMap h rs libraryItems (AList.update (ref_index reference) matches matchMap)
      else fillMatchMap h rs libraryItems matchMap)"

definition matchReferencesToLibrary :: "host \<Rightarrow> ParsedReference list \<Rightarrow> ReferenceItem list \<Rightarrow>
    (int \<times> MatchResult list) list" where
  "matchReferencesToLibrary h references libraryItems = fillMatchMap h references libraryItems []"

text \<open>
  No block of \<open>calculateSimilarity\<close> is entered: each of its four guards is false.
\<close>

definition noSignal :: "ParsedReference \<Rightarrow> ReferenceItem \<Rightarrow> bool" where
  "noSignal reference it =
     (\<not> (truthy (ref_doi reference) \<and> truthy (item_doi it)) \<and>
      \<not> (truthy (ref_year reference) \<and> truthy (item_date it)) \<and>
      \<not> (truthy (ref_title reference) \<and> item_title it \<noteq> []) \<and>
      \<not> (truthy (ref_authors reference) \<and> 0 < length (item_creators it)))"

text \<open>
  The guard of the DOI block (both DOIs are there and non-empty), and the condition under
  which the block adds its weight to the score.
\<close>

definition doiComparable :: "ParsedReference \<Rightarrow> ReferenceItem \<Rightarrow> bool" where
  "doiComparable reference it = (truthy (ref_doi reference) \<and> truthy (item_doi it))"

definition doiMatches :: "host \<Rightarrow> ParsedReference \<Rightarrow> ReferenceItem \<Rightarrow> bool" where
  "doiMatches h reference it =
     (case (ref_doi reference, item_doi it) of
        (Some rd, Some idoi) \<Rightarrow> rd \<noteq> [] \<and> idoi \<noteq> [] \<and> toLowerCase h rd = toLowerCase h idoi
      | _ \<Rightarrow> False)"

text \<open>What a \<open>(\d{4})\<close> group captures: a string of exactly four decimal digits.\<close>

definition fourDigits :: "jsstring option \<Rightarrow> bool" where
  "fourDigits y = (case y of None \<Rightarrow> False | Some d \<Rightarrow> length d = 4 \<and> list_all is_digit d)"

section \<open>Example data\<close>

text \<open>
  A host for the examples: lower-casing of the ASCII letters, which is what
  \<open>toLowerCase\<close> does on strings of ASCII code units, and the year read off the first four
  characters of an ISO date such as \<open>2020-05-17T12:00:00\<close>.
\<close>

definition asciiLower :: "jsstring \<Rightarrow> jsstring" where
  "asciiLower s = map (\<lambda>c. if is_upper c then c + 32 else c) s"

definition exHost :: host where
  "exHost = \<lparr>toLowerCase = asciiLower, fullYear = (\<lambda>s. take 4 s)\<rparr>"

definition refWidgets :: ParsedReference where
  "refWidgets = \<lparr>ref_index = 1, ref_text = js ''Smith, J. (2020). A Study of Widgets.'',
     ref_doi = Some (js ''10.1234/abcd''), ref_authors = Some (js ''Smith, J.''),
     ref_title = Some (js ''A Study of Widgets''), ref_year = Some (js ''2020'')\<rparr>"

definition refAgain :: ParsedReference where
  "refAgain = \<lparr>ref_index = 1, ref_text = js ''Study Widgets Again'',
     ref_doi = None, ref_authors = None,
     ref_title = Some (js ''Study Widgets Again''), ref_year = None\<rparr>"

definition refBare :: ParsedReference where
  "refBare = \<lparr>ref_index = 2, ref_text = js ''see the appendix'',
     ref_doi = None, ref_authors = None, ref_title = None, ref_year = None\<rparr>"

definition itemWidgets :: ReferenceItem where
  "itemWidgets = \<lparr>item_id = js ''w1'', item_title = js ''A Study of Widgets'',
     item_creators = [\<lparr>firstName = Some (js ''John''), lastName = js ''Smith''\<rparr>],
     item_date = None, item_doi = Some (js ''10.1234/ABCD'')\<rparr>"

definition itemAgain :: ReferenceItem where
  "itemAgain = \<lparr>item_id = js ''w2'', item_title = js ''Study Widgets Again'',
     item_creators = [], item_date = None, item_doi = None\<rparr>"

definition itemOther :: ReferenceItem where
  "itemOther = \<lparr>item_id = js ''w3'', item_title = js ''Widgets in Practice'',
     item_creators = [], item_date = None, item_doi = None\<rparr>"

definition refThird :: ParsedReference where
  "refThird = \<lparr>ref_index = 1, ref_text = js ''Widgets in Practice'',
     ref_doi = None, ref_authors = None,
     ref_title = Some (js ''Widgets in Practice''), ref_year = None\<rparr>"

definition refDoi :: ParsedReference where
  "refDoi = \<lparr>ref_index = 3, ref_text = js ''Study Widgets Again. doi:10.1234/abcd'',
     ref_doi = Some (js ''10.1234/abcd''), ref_authors = None,
     ref_title = Some (js ''Study Widgets Again''), ref_year = None\<rparr>"

definition itemDoi :: ReferenceItem where
  "itemDoi = \<lparr>item_id = js ''w4'', item_title = js ''Study Widgets Again'',
     item_creators = [], item_date = None, item_doi = Some (js ''10.1234/ABCD'')\<rparr>"

text \<open>
  Reference texts: the scenario of the specification, a segment that starts with
  \<open>and\<close>, a segment without a year, a segment whose only year is its bracketed number,
  and a document text that uses the word \<open>References\<close> before the header.
\<close>

definition textScenario :: jsstring where
  "textScenario = js ''[1] Smith, J. (2020). A Study of Widgets. Journal of Widgets, 12(3), 1-10. https://doi.org/10.1234/abcd''"

definition recScenario :: ParsedReference where
  "recScenario = \<lparr>ref_index = 1,
     ref_text = js ''Smith, J. (2020). A Study of Widgets. Journal of Widgets, 12(3), 1-10. https://doi.org/10.1234/abcd'',
     ref_doi = Some (js ''10.1234/abcd''), ref_authors = Some (js ''Smith, J.''),
     ref_title = Some (js ''A Study of Widgets''), ref_year = Some (js ''2020'')\<rparr>"

definition textAnd :: jsstring where
  "textAnd = js ''and (2020). A Study of Widgets. J.''"

definition lineNoYear :: jsstring where
  "lineNoYear = js ''see the appendix for details''"

definition lineBracket :: jsstring where
  "lineBracket = js ''[2020] no year is left in this text''"

definition textHeader :: jsstring where
  "textHeader = js ''References to prior work are given below. References. [1] Smith''"

section \<open>Evaluation\<close>

lemmas cls = is_digit_def is_upper_def is_lower_def is_word_def is_space_def is_dot_def only_def
  ci_def ch_def oneOf_def noneOf_def doi_char_def
lemmas ops = js_def trim_def substring0_def indexOf_def includesStr_def splitStr_def
  parseInt_def matchAt_def exec_def test_def removeFirst_def replaceAll_def splitRe_def star0_def
  plus1_def opt1_def exactly_def group1_def
lemmas exs = asciiLower_def exHost_def refWidgets_def refAgain_def refBare_def itemWidgets_def
  itemAgain_def itemOther_def
lemmas sims = normalizeString_def wordSet_def fuzzyMatch_def doiStep_def yearStep_def titleStep_def
  creatorName_def authorStep_def calculateSimilarity_def


lemmas pats = DOI_REGEX_def REFERENCE_SECTION_PATTERNS_def REFERENCE_NUMBER_PATTERNS_def
  numberedSplit_def patternWithParen_def patternWithPeriod_def patternSimple_def yearAny_def
  yearParen_def yearPeriod_def titlePattern_def authorPattern_def leadingAnd_def
lemmas fns = findReferencesSection_def nonBlank_def splitLines_def extractDoi_def extractYear_def
  extractTitle_def extractAuthors_def checkAuthors_def processLine_def parseReferences_def

lemma sim_Widgets_Widgets: "calculateSimilarity exHost refWidgets itemWidgets = 23 / 24"
  by (simp add: cls ops exs sims)

lemma sim_Widgets_Again: "calculateSimilarity exHost refWidgets itemAgain = 2 / 3"
  by (simp add: cls ops exs sims)

lemma sim_Widgets_Other: "calculateSimilarity exHost refWidgets itemOther = 1 / 3"
  by (simp add: cls ops exs sims)


lemma sim_Again_Widgets: "calculateSimilarity exHost refAgain itemWidgets = 2 / 3"
  by (simp add: cls ops exs sims)

lemma sim_Again_Again: "calculateSimilarity exHost refAgain itemAgain = 1"
  by (simp add: cls ops exs sims)

lemma sim_Again_Other: "calculateSimilarity exHost refAgain itemOther = 1 / 4"
  by (simp add: cls ops exs sims)

lemma sim_Bare: "calculateSimilarity exHost refBare it = 0"
  by (simp add: refBare_def sims)

lemma item_ids:
  "item_id itemWidgets = js ''w1''" "item_id itemAgain = js ''w2''" "item_id itemOther = js ''w3''"
  by (simp_all add: itemWidgets_def itemAgain_def itemOther_def)

lemma find_Widgets:
  "findMatchingItems exHost refWidgets [itemOther, itemAgain, itemWidgets] =
     [\<lparr>itemId = js ''w1'', similarity = 23 / 24, mitem = itemWidgets\<rparr>,
      \<lparr>itemId = js ''w2'', similarity = 2 / 3, mitem = itemAgain\<rparr>]"
  by (simp add: findMatchingItems_def sim_Widgets_Widgets sim_Widgets_Again sim_Widgets_Other
      item_ids)

lemma find_Again:
  "findMatchingItems exHost refAgain [itemOther, itemAgain, itemWidgets] =
     [\<lparr>itemId = js ''w2'', similarity = 1, mitem = itemAgain\<rparr>,
      \<lparr>itemId = js ''w1'', similarity = 2 / 3, mitem = itemWidgets\<rparr>]"
  by (simp add: findMatchingItems_def sim_Again_Widgets sim_Again_Again sim_Again_Other
      item_ids)

lemma sim_Third_Widgets: "calculateSimilarity exHost refThird itemWidgets = 1 / 3"
  by (simp add: cls ops exs sims refThird_def)

lemma sim_Third_Again: "calculateSimilarity exHost refThird itemAgain = 1 / 4"
  by (simp add: cls ops exs sims refThird_def)

lemma sim_Third_Other: "calculateSimilarity exHost refThird itemOther = 1"
  by (simp add: cls ops exs sims refThird_def)

lemma find_Third:
  "findMatchingItems exHost refThird [itemOther, itemAgain, itemWidgets] =
     [\<lparr>itemId = js ''w3'', similarity = 1, mitem = itemOther\<rparr>]"
  by (simp add: findMatchingItems_def sim_Third_Widgets sim_Third_Again sim_Third_Other
      item_ids)

lemma find_Bare: "findMatchingItems exHost refBare [itemOther, itemAgain, itemWidgets] = []"
  by (simp add: findMatchingItems_def sim_Bare)

lemma sim_Doi_Doi: "calculateSimilarity exHost refDoi itemDoi = 1"
  by (simp add: cls ops exs sims refDoi_def itemDoi_def)

lemma sim_noDoi_Doi: "calculateSimilarity exHost (refDoi\<lparr>ref_doi := None\<rparr>) itemDoi = 1"
  by (simp add: cls ops exs sims refDoi_def itemDoi_def)

lemma doiMatches_examples:
  "doiMatches exHost refDoi itemDoi"
  "\<not> doiMatches exHost (refDoi\<lparr>ref_doi := None\<rparr>) itemDoi"
  "\<not> doiMatches exHost (refDoi\<lparr>ref_doi := Some (js ''10.9999/zzzz'')\<rparr>) itemDoi"
  by (simp_all add: doiMatches_def refDoi_def itemDoi_def exHost_def asciiLower_def js_def is_upper_def)

lemma ref_indices: "ref_index refWidgets = 1" "ref_index refAgain = 1" "ref_index refBare = 2"
  by (simp_all add: refWidgets_def refAgain_def refBare_def)

section \<open>The similarity score\<close>

lemma fuzzyMatch_bounds: "0 \<le> fuzzyMatch a b \<and> fuzzyMatch a b \<le> 1"
proof -
  let ?w1 = "wordSet a" and ?w2 = "wordSet b"
  have "card (set (filter (\<lambda>w. w \<in> set ?w2) ?w1)) \<le> card (set (?w1 @ ?w2))"
    by (rule card_mono) auto
  then have le: "length (remdups (filter (\<lambda>w. w \<in> set ?w2) ?w1)) \<le> length (remdups (?w1 @ ?w2))"
    by (simp only: length_remdups_card_conv)
  show ?thesis
    using le by (auto simp: fuzzyMatch_def Let_def divide_le_eq_1)
qed

lemma doiStep_add:
  "doiStep h r i (s, w) = (s + fst (doiStep h r i (0, 0)), w + snd (doiStep h r i (0, 0)))"
  by (simp add: doiStep_def split: option.splits)

lemma yearStep_add:
  "yearStep h r i (s, w) = (s + fst (yearStep h r i (0, 0)), w + snd (yearStep h r i (0, 0)))"
  by (simp add: yearStep_def split: option.splits)

lemma titleStep_add:
  "titleStep h r i (s, w) = (s + fst (titleStep h r i (0, 0)), w + snd (titleStep h r i (0, 0)))"
  by (simp add: titleStep_def split: option.splits)

lemma authorStep_add:
  "authorStep h r i (s, w) = (s + fst (authorStep h r i (0, 0)), w + snd (authorStep h r i (0, 0)))"
  by (simp add: authorStep_def Let_def split: option.splits list.splits)

lemma doiStep_bounds:
  "0 \<le> fst (doiStep h r i (0, 0)) \<and> fst (doiStep h r i (0, 0)) \<le> snd (doiStep h r i (0, 0))"
  by (simp add: doiStep_def split: option.splits)

lemma yearStep_bounds:
  "0 \<le> fst (yearStep h r i (0, 0)) \<and> fst (yearStep h r i (0, 0)) \<le> snd (yearStep h r i (0, 0))"
  by (simp add: yearStep_def split: option.splits)

lemma titleStep_bounds:
  "0 \<le> fst (titleStep h r i (0, 0)) \<and> fst (titleStep h r i (0, 0)) \<le> snd (titleStep h r i (0, 0))"
  using fuzzyMatch_bounds by (simp add: titleStep_def split: option.splits)

lemma authorStep_bounds:
  "0 \<le> fst (authorStep h r i (0, 0)) \<and> fst (authorStep h r i (0, 0)) \<le> snd (authorStep h r i (0, 0))"
proof (cases "ref_authors r")
  case None
  then show ?thesis by (simp add: authorStep_def)
next
  case (Some ra)
  show ?thesis
  proof (cases "item_creators i")
    case Nil
    with Some show ?thesis by (simp add: authorStep_def)
  next
    case (Cons c cs)
    define f where "f = fuzzyMatch (normalizeString h ra) (join (map (creatorName h) (c # cs)) (js '' ''))"
    have f: "0 \<le> f" "f \<le> 1"
      using fuzzyMatch_bounds by (simp_all add: f_def)
    then have g: "0 \<le> f * (3 / 2)" "f * (3 / 2) \<le> 3 / 2"
      by simp_all
    show ?thesis
    proof (cases "ra = []")
      case True
      with Some Cons show ?thesis by (simp add: authorStep_def)
    next
      case False
      with Some Cons have
        "authorStep h r i (0, 0) =
           ((if includesStr (normalizeString h ra) (toLowerCase h (lastName c)) then 3 / 2 else 0)
              + f * (3 / 2), 3)"
        by (simp add: authorStep_def Let_def f_def)
      with g show ?thesis by auto
    qed
  qed
qed

text \<open>The score and the weight that \<open>calculateSimilarity\<close> divides.\<close>

lemma calculateSimilarity_sum:
  "calculateSimilarity h r i =
     (let score = fst (doiStep h r i (0, 0)) + fst (yearStep h r i (0, 0))
                  + fst (titleStep h r i (0, 0)) + fst (authorStep h r i (0, 0));
          totalWeight = snd (doiStep h r i (0, 0)) + snd (yearStep h r i (0, 0))
                  + snd (titleStep h r i (0, 0)) + snd (authorStep h r i (0, 0))
      in if totalWeight = 0 then 0 else score / totalWeight)"
proof -
  obtain s1 w1 where d: "doiStep h r i (0, 0) = (s1, w1)" by fastforce
  obtain s2 w2 where y: "yearStep h r i (0, 0) = (s2, w2)" by fastforce
  obtain s3 w3 where t: "titleStep h r i (0, 0) = (s3, w3)" by fastforce
  obtain s4 w4 where a: "authorStep h r i (0, 0) = (s4, w4)" by fastforce
  have "authorStep h r i (titleStep h r i (yearStep h r i (doiStep h r i (0, 0))))
        = (s1 + s2 + s3 + s4, w1 + w2 + w3 + w4)"
    by (simp add: d yearStep_add [of h r i s1 w1] y titleStep_add [of h r i "s1 + s2" "w1 + w2"] t
        authorStep_add [of h r i "s1 + s2 + s3" "w1 + w2 + w3"] a)
  then show ?thesis
    by (simp add: calculateSimilarity_def d y t a)
qed

lemma calculateSimilarity_range: "0 \<le> calculateSimilarity h r i \<and> calculateSimilarity h r i \<le> 1"
proof -
  have "0 \<le> a \<Longrightarrow> a \<le> b \<Longrightarrow> (if b = 0 then 0 else a / b) \<le> (1::real) \<and> 0 \<le> (if b = 0 then 0 else a / b)" for a b :: real
    by (auto simp: divide_le_eq_1)
  moreover have "0 \<le> fst (doiStep h r i (0, 0)) + fst (yearStep h r i (0, 0))
                  + fst (titleStep h r i (0, 0)) + fst (authorStep h r i (0, 0))"
    using doiStep_bounds [of h r i] yearStep_bounds [of h r i] titleStep_bounds [of h r i]
      authorStep_bounds [of h r i] by linarith
  moreover have "fst (doiStep h r i (0, 0)) + fst (yearStep h r i (0, 0))
                  + fst (titleStep h r i (0, 0)) + fst (authorStep h r i (0, 0))
       \<le> snd (doiStep h r i (0, 0)) + snd (yearStep h r i (0, 0))
                  + snd (titleStep h r i (0, 0)) + snd (authorStep h r i (0, 0))"
    using doiStep_bounds [of h r i] yearStep_bounds [of h r i] titleStep_bounds [of h r i]
      authorStep_bounds [of h r i] by linarith
  ultimately show ?thesis
    unfolding calculateSimilarity_sum Let_def by blast
qed

text \<open>
  Claim C1: for every reference and every library item \<open>calculateSimilarity\<close> returns a
  value in the closed interval from 0 to 1, and when no signal is applicable (no block is
  entered, so the total weight is zero) it returns exactly 0.
\<close>

theorem calculateSimilarity_unit_interval:
  "0 \<le> calculateSimilarity h reference it \<and> calculateSimilarity h reference it \<le> 1 \<and>
   (noSignal reference it \<longrightarrow> calculateSimilarity h reference it = 0)"
proof -
  have "calculateSimilarity h reference it = 0" if ns: "noSignal reference it"
  proof -
    have "doiStep h reference it (0, 0) = (0, 0)"
      using ns by (cases "ref_doi reference"; cases "item_doi it") (auto simp: noSignal_def doiStep_def)
    moreover have "yearStep h reference it (0, 0) = (0, 0)"
      using ns by (cases "ref_year reference"; cases "item_date it") (auto simp: noSignal_def yearStep_def)
    moreover have "titleStep h reference it (0, 0) = (0, 0)"
      using ns by (cases "ref_title reference") (auto simp: noSignal_def titleStep_def)
    moreover have "authorStep h reference it (0, 0) = (0, 0)"
      using ns by (cases "ref_authors reference"; cases "item_creators it") (auto simp: noSignal_def authorStep_def)
    ultimately show ?thesis
      by (simp add: calculateSimilarity_def)
  qed
  with calculateSimilarity_range [of h reference it] show ?thesis
    by blast
qed

text \<open>
  C1 at concrete inputs: a reference without fields against an item, and a reference with
  all four fields against the same item.
\<close>

theorem calculateSimilarity_unit_interval_witness:
  "noSignal refBare itemWidgets \<and> calculateSimilarity exHost refBare itemWidgets = 0 \<and>
   \<not> noSignal refWidgets itemWidgets \<and> 0 \<le> calculateSimilarity exHost refWidgets itemWidgets \<and>
   calculateSimilarity exHost refWidgets itemWidgets \<le> 1"
proof -
  have a: "noSignal refBare itemWidgets"
    by (simp add: noSignal_def refBare_def)
  have b: "\<not> noSignal refWidgets itemWidgets"
    by (simp add: noSignal_def refWidgets_def itemWidgets_def js_def)
  from a b calculateSimilarity_unit_interval [of exHost refBare itemWidgets]
    calculateSimilarity_unit_interval [of exHost refWidgets itemWidgets]
  show ?thesis by blast
qed

section \<open>Ranking the candidates of one reference\<close>

lemma collectMatches_set:
  "set (collectMatches h reference its acc) =
     set acc \<union> {\<lparr>itemId = item_id it, similarity = calculateSimilarity h reference it, mitem = it\<rparr>
       | it. it \<in> set its \<and> 1 / 2 \<le> calculateSimilarity h reference it}"
  by (induction its arbitrary: acc) (auto simp: Let_def)

lemma findMatchingItems_set:
  "set (findMatchingItems h reference its) =
     {\<lparr>itemId = item_id it, similarity = calculateSimilarity h reference it, mitem = it\<rparr>
       | it. it \<in> set its \<and> 1 / 2 \<le> calculateSimilarity h reference it}"
  by (simp add: findMatchingItems_def collectMatches_set)

text \<open>
  Claim C2: every element of the list returned by \<open>findMatchingItems\<close> has a similarity of
  at least 0.5 (it is the score of its item, an item of the corpus), and the list is in
  descending order of similarity.
\<close>

theorem findMatchingItems_threshold_sorted:
  "(\<forall>mr \<in> set (findMatchingItems h reference libraryItems).
      1 / 2 \<le> similarity mr \<and> mitem mr \<in> set libraryItems \<and>
      similarity mr = calculateSimilarity h reference (mitem mr)) \<and>
   sorted_wrt (\<lambda>a b. similarity b \<le> similarity a) (findMatchingItems h reference libraryItems)"
proof -
  have "sorted (map (\<lambda>mr. - similarity mr) (findMatchingItems h reference libraryItems))"
    by (simp add: findMatchingItems_def)
  then have "sorted_wrt (\<lambda>a b. similarity b \<le> similarity a) (findMatchingItems h reference libraryItems)"
    by (simp add: sorted_map)
  then show ?thesis
    by (auto simp: findMatchingItems_set)
qed

text \<open>C2 on a corpus of three items, one of them below the threshold.\<close>

theorem findMatchingItems_threshold_sorted_witness:
  "findMatchingItems exHost refWidgets [itemOther, itemAgain, itemWidgets] =
     [\<lparr>itemId = js ''w1'', similarity = 23 / 24, mitem = itemWidgets\<rparr>,
      \<lparr>itemId = js ''w2'', similarity = 2 / 3, mitem = itemAgain\<rparr>] \<and>
   (1::real) / 2 \<le> 23 / 24 \<and> (1::real) / 2 \<le> 2 / 3 \<and>
   sorted_wrt (\<lambda>a b. similarity b \<le> similarity a)
     (findMatchingItems exHost refWidgets [itemOther, itemAgain, itemWidgets])"
  using findMatchingItems_threshold_sorted [of exHost refWidgets "[itemOther, itemAgain, itemWidgets]"]
  by (simp add: find_Widgets)

section \<open>A matching DOI\<close>

lemma doiStep_cases:
  "doiStep h r i (0, 0) =
     (if doiMatches h r i then (10, 10) else if doiComparable r i then (0, 10) else (0, 0))"
  by (cases "ref_doi r"; cases "item_doi i") (auto simp: doiStep_def doiMatches_def doiComparable_def)

lemma other_steps_ignore_doi:
  "yearStep h (r\<lparr>ref_doi := d\<rparr>) (i\<lparr>item_doi := e\<rparr>) acc = yearStep h r i acc"
  "titleStep h (r\<lparr>ref_doi := d\<rparr>) (i\<lparr>item_doi := e\<rparr>) acc = titleStep h r i acc"
  "authorStep h (r\<lparr>ref_doi := d\<rparr>) (i\<lparr>item_doi := e\<rparr>) acc = authorStep h r i acc"
  by (simp_all add: yearStep_def titleStep_def authorStep_def
      split: prod.splits option.splits list.splits)

lemma ratio_facts:
  fixes S W :: real
  assumes "0 \<le> S" "S \<le> W"
  shows "S / (10 + W) < (10 + S) / (10 + W)"
    and "(if W = 0 then 0 else S / W) \<le> (10 + S) / (10 + W)"
    and "((if W = 0 then 0 else S / W) < (10 + S) / (10 + W)) = ((if W = 0 then 0 else S / W) < 1)"
proof -
  have W: "0 \<le> W" using assms by simp
  show "S / (10 + W) < (10 + S) / (10 + W)"
    using W by (simp add: divide_strict_right_mono)
  show "(if W = 0 then 0 else S / W) \<le> (10 + S) / (10 + W)"
  proof (cases "W = 0")
    case True
    with assms show ?thesis by simp
  next
    case False
    with W have "0 < W" by simp
    with assms show ?thesis by (simp add: field_simps)
  qed
  show "((if W = 0 then 0 else S / W) < (10 + S) / (10 + W)) = ((if W = 0 then 0 else S / W) < 1)"
  proof (cases "W = 0")
    case True
    with assms show ?thesis by simp
  next
    case False
    with W have "0 < W" by simp
    with assms show ?thesis by (simp add: field_simps)
  qed
qed

text \<open>
  Claim C6, amended: take two inputs of \<open>calculateSimilarity\<close> that are identical except
  for the DOI fields, the DOIs matching in the first and not in the second. The first
  scores at least as high as the second; it scores strictly higher exactly when the second
  has both DOIs (so they differ) or scores below 1; and the two scores are equal exactly
  when the second has no comparable DOI and itself scores 1.
\<close>

theorem doi_match_dominance:
  assumes "doiMatches h r i"
    and "\<not> doiMatches h (r\<lparr>ref_doi := d\<rparr>) (i\<lparr>item_doi := e\<rparr>)"
  shows "calculateSimilarity h (r\<lparr>ref_doi := d\<rparr>) (i\<lparr>item_doi := e\<rparr>) \<le> calculateSimilarity h r i \<and>
    (calculateSimilarity h (r\<lparr>ref_doi := d\<rparr>) (i\<lparr>item_doi := e\<rparr>) < calculateSimilarity h r i)
      = (doiComparable (r\<lparr>ref_doi := d\<rparr>) (i\<lparr>item_doi := e\<rparr>)
         \<or> calculateSimilarity h (r\<lparr>ref_doi := d\<rparr>) (i\<lparr>item_doi := e\<rparr>) < 1) \<and>
    (calculateSimilarity h (r\<lparr>ref_doi := d\<rparr>) (i\<lparr>item_doi := e\<rparr>) = calculateSimilarity h r i)
      = (\<not> doiComparable (r\<lparr>ref_doi := d\<rparr>) (i\<lparr>item_doi := e\<rparr>)
         \<and> calculateSimilarity h (r\<lparr>ref_doi := d\<rparr>) (i\<lparr>item_doi := e\<rparr>) = 1)"
proof -
  define S where "S = fst (yearStep h r i (0, 0)) + fst (titleStep h r i (0, 0)) + fst (authorStep h r i (0, 0))"
  define W where "W = snd (yearStep h r i (0, 0)) + snd (titleStep h r i (0, 0)) + snd (authorStep h r i (0, 0))"
  have SW: "0 \<le> S" "S \<le> W"
    using yearStep_bounds [of h r i] titleStep_bounds [of h r i] authorStep_bounds [of h r i]
    by (simp_all add: S_def W_def)
  then have W: "0 \<le> W" by simp
  have sum: "calculateSimilarity h r' i' =
      (if snd (doiStep h r' i' (0, 0)) + W' = 0 then 0
       else (fst (doiStep h r' i' (0, 0)) + S') / (snd (doiStep h r' i' (0, 0)) + W'))"
    if "S' = fst (yearStep h r' i' (0, 0)) + fst (titleStep h r' i' (0, 0)) + fst (authorStep h r' i' (0, 0))"
      and "W' = snd (yearStep h r' i' (0, 0)) + snd (titleStep h r' i' (0, 0)) + snd (authorStep h r' i' (0, 0))"
    for r' i' S' W'
    unfolding calculateSimilarity_sum Let_def that by (simp add: add.assoc)
  have ne: "10 + W \<noteq> 0"
    using W by simp
  have A: "calculateSimilarity h r i = (10 + S) / (10 + W)"
    using assms(1) ne by (simp add: sum [OF S_def W_def] doiStep_cases)
  have S': "S = fst (yearStep h (r\<lparr>ref_doi := d\<rparr>) (i\<lparr>item_doi := e\<rparr>) (0, 0))
      + fst (titleStep h (r\<lparr>ref_doi := d\<rparr>) (i\<lparr>item_doi := e\<rparr>) (0, 0))
      + fst (authorStep h (r\<lparr>ref_doi := d\<rparr>) (i\<lparr>item_doi := e\<rparr>) (0, 0))"
    by (simp add: S_def other_steps_ignore_doi)
  have W': "W = snd (yearStep h (r\<lparr>ref_doi := d\<rparr>) (i\<lparr>item_doi := e\<rparr>) (0, 0))
      + snd (titleStep h (r\<lparr>ref_doi := d\<rparr>) (i\<lparr>item_doi := e\<rparr>) (0, 0))
      + snd (authorStep h (r\<lparr>ref_doi := d\<rparr>) (i\<lparr>item_doi := e\<rparr>) (0, 0))"
    by (simp add: W_def other_steps_ignore_doi)
  let ?A = "calculateSimilarity h r i"
  let ?B = "calculateSimilarity h (r\<lparr>ref_doi := d\<rparr>) (i\<lparr>item_doi := e\<rparr>)"
  let ?c = "doiComparable (r\<lparr>ref_doi := d\<rparr>) (i\<lparr>item_doi := e\<rparr>)"
  have order: "?B \<le> ?A \<and> (?B < ?A) = (?c \<or> ?B < 1)"
  proof (cases ?c)
    case True
    then have B: "?B = S / (10 + W)"
      using assms(2) ne by (simp add: sum [OF S' W'] doiStep_cases)
    from ratio_facts(1) [OF SW] True show ?thesis
      by (simp add: A B)
  next
    case False
    then have B: "?B = (if W = 0 then 0 else S / W)"
      using assms(2) by (simp add: sum [OF S' W'] doiStep_cases)
    from ratio_facts(2,3) [OF SW] False show ?thesis
      by (simp only: A B) blast
  qed
  have "?B \<le> 1"
    using calculateSimilarity_range [of h "r\<lparr>ref_doi := d\<rparr>" "i\<lparr>item_doi := e\<rparr>"] by simp
  with order have "(?B = ?A) = (\<not> ?c \<and> ?B = 1)"
    by (cases ?c) auto
  with order show ?thesis
    by blast
qed

text \<open>C6, amended, at a pair whose DOIs differ.\<close>

theorem doi_match_dominance_witness:
  "doiMatches exHost refDoi itemDoi \<and>
   \<not> doiMatches exHost (refDoi\<lparr>ref_doi := Some (js ''10.9999/zzzz'')\<rparr>) itemDoi \<and>
   calculateSimilarity exHost (refDoi\<lparr>ref_doi := Some (js ''10.9999/zzzz'')\<rparr>) itemDoi
     < calculateSimilarity exHost refDoi itemDoi"
proof -
  have c: "doiComparable (refDoi\<lparr>ref_doi := Some (js ''10.9999/zzzz'')\<rparr>) itemDoi"
    by (simp add: doiComparable_def refDoi_def itemDoi_def js_def)
  have "itemDoi\<lparr>item_doi := item_doi itemDoi\<rparr> = itemDoi"
    by simp
  with c doiMatches_examples(1,3)
    doi_match_dominance [of exHost refDoi itemDoi "Some (js ''10.9999/zzzz'')" "item_doi itemDoi"]
  show ?thesis by simp
qed

text \<open>
  Claim C6 as stated fails: dropping the matching DOI from a reference whose title agrees
  fully with the item leaves the score at 1, so the pair with the matching DOI does not
  score strictly higher.
\<close>

theorem doi_match_not_strict:
  "doiMatches exHost refDoi itemDoi \<and>
   \<not> doiMatches exHost (refDoi\<lparr>ref_doi := None\<rparr>) itemDoi \<and>
   calculateSimilarity exHost refDoi itemDoi = 1 \<and>
   calculateSimilarity exHost (refDoi\<lparr>ref_doi := None\<rparr>) itemDoi = 1 \<and>
   \<not> calculateSimilarity exHost (refDoi\<lparr>ref_doi := None\<rparr>) itemDoi
       < calculateSimilarity exHost refDoi itemDoi"
  by (simp add: doiMatches_examples sim_Doi_Doi sim_noDoi_Doi)

section \<open>The map from reference index to matches\<close>

lemma fill_lookup:
  "map_of (fillMatchMap h rs its mm) k =
     (case List.find (\<lambda>r. ref_index r = k \<and> findMatchingItems h r its \<noteq> []) (rev rs) of
        None \<Rightarrow> map_of mm k
      | Some r \<Rightarrow> Some (findMatchingItems h r its))"
proof (induction rs arbitrary: mm)
  case Nil
  then show ?case by simp
next
  case (Cons r rs)
  have fa: "List.find P (xs @ [x]) = (case List.find P xs of None \<Rightarrow> if P x then Some x else None | Some y \<Rightarrow> Some y)"
    for P and xs :: "ParsedReference list" and x
    by (induction xs) auto
  show ?case
    by (auto simp: Cons.IH fa Let_def update_conv' split: option.splits)
qed

lemma find_SomeD: "List.find P xs = Some x \<Longrightarrow> x \<in> set xs \<and> P x"
  by (induction xs) (auto split: if_splits)

lemma fill_keys:
  "distinct (map fst mm) \<Longrightarrow> distinct (map fst (fillMatchMap h rs its mm))"
  by (induction rs arbitrary: mm) (auto simp: Let_def distinct_update)

text \<open>
  Claim C8: an index is a key of the map returned by \<open>matchReferencesToLibrary\<close> only if
  some reference carrying it has a qualifying match (the value is that reference's
  non-empty list); an index whose references all have no qualifying match is absent, and
  no key is mapped to the empty list.
\<close>

theorem matchMap_keys_have_matches:
  "(map_of (matchReferencesToLibrary h references libraryItems) k = Some ms \<longrightarrow>
      ms \<noteq> [] \<and>
      (\<exists>r \<in> set references. ref_index r = k \<and> findMatchingItems h r libraryItems = ms)) \<and>
   ((\<forall>r \<in> set references. ref_index r = j \<longrightarrow> findMatchingItems h r libraryItems = []) \<longrightarrow>
      map_of (matchReferencesToLibrary h references libraryItems) j = None) \<and>
   (j, []) \<notin> set (matchReferencesToLibrary h references libraryItems)"
proof -
  let ?M = "matchReferencesToLibrary h references libraryItems"
  have look: "map_of ?M x =
      (case List.find (\<lambda>r. ref_index r = x \<and> findMatchingItems h r libraryItems \<noteq> []) (rev references) of
         None \<Rightarrow> None | Some r \<Rightarrow> Some (findMatchingItems h r libraryItems))" for x
    by (simp add: matchReferencesToLibrary_def fill_lookup split: option.splits)
  have some: "ms \<noteq> [] \<and> (\<exists>r \<in> set references. ref_index r = x \<and> findMatchingItems h r libraryItems = ms)"
    if "map_of ?M x = Some ms" for x ms
  proof -
    from that obtain r where
      f: "List.find (\<lambda>r. ref_index r = x \<and> findMatchingItems h r libraryItems \<noteq> []) (rev references) = Some r"
      and ms: "ms = findMatchingItems h r libraryItems"
      by (auto simp: look split: option.splits)
    from find_SomeD [OF f]
    have "r \<in> set references \<and> ref_index r = x \<and> findMatchingItems h r libraryItems \<noteq> []"
      by simp
    with ms show ?thesis by auto
  qed
  have dist: "distinct (map fst ?M)"
    by (simp add: matchReferencesToLibrary_def fill_keys)
  have none: "map_of ?M j = None"
    if "\<forall>r \<in> set references. ref_index r = j \<longrightarrow> findMatchingItems h r libraryItems = []"
  proof (cases "map_of ?M j")
    case None
    then show ?thesis .
  next
    case (Some ms)
    from some [OF Some] that show ?thesis by auto
  qed
  have "(j, []) \<notin> set ?M"
  proof
    assume "(j, []) \<in> set ?M"
    with dist have "map_of ?M j = Some []" by simp
    from some [OF this] show False by simp
  qed
  with some none show ?thesis by blast
qed

text \<open>C8 on two references, the second without a match.\<close>

theorem matchMap_keys_have_matches_witness:
  "map_of (matchReferencesToLibrary exHost [refWidgets, refBare] [itemOther, itemAgain, itemWidgets]) 1
     = Some [\<lparr>itemId = js ''w1'', similarity = 23 / 24, mitem = itemWidgets\<rparr>,
             \<lparr>itemId = js ''w2'', similarity = 2 / 3, mitem = itemAgain\<rparr>] \<and>
   refWidgets \<in> set [refWidgets, refBare] \<and> ref_index refWidgets = 1 \<and>
   findMatchingItems exHost refBare [itemOther, itemAgain, itemWidgets] = [] \<and>
   map_of (matchReferencesToLibrary exHost [refWidgets, refBare] [itemOther, itemAgain, itemWidgets]) 2
     = None"
proof -
  have "map_of (matchReferencesToLibrary exHost [refWidgets, refBare] [itemOther, itemAgain, itemWidgets]) 1
     = Some [\<lparr>itemId = js ''w1'', similarity = 23 / 24, mitem = itemWidgets\<rparr>,
             \<lparr>itemId = js ''w2'', similarity = 2 / 3, mitem = itemAgain\<rparr>]"
    by (simp add: matchReferencesToLibrary_def find_Widgets find_Bare ref_indices)
  moreover have "\<forall>r \<in> set [refWidgets, refBare].
      ref_index r = 2 \<longrightarrow> findMatchingItems exHost r [itemOther, itemAgain, itemWidgets] = []"
    by (simp add: ref_indices find_Bare)
  ultimately show ?thesis
    using matchMap_keys_have_matches [of exHost "[refWidgets, refBare]"
        "[itemOther, itemAgain, itemWidgets]" 1 _ 2]
    by (simp add: ref_indices find_Bare)
qed

lemma find_skip: "\<forall>x \<in> set xs. \<not> P x \<Longrightarrow> List.find P (xs @ ys) = List.find P ys"
  by (induction xs) auto

text \<open>
  Claim C10, amended: when two references of the input carry the same index and each has
  a qualifying match, and no reference after the later of the two carries that index
  with a qualifying match, the map holds for that index the list of the later one, and no
  other list under that index.
\<close>

theorem later_reference_overwrites:
  assumes "references = xs @ r1 # ys @ r2 # zs"
    and "ref_index r1 = ref_index r2"
    and "findMatchingItems h r1 libraryItems \<noteq> []"
    and "findMatchingItems h r2 libraryItems \<noteq> []"
    and "\<forall>r \<in> set zs. ref_index r = ref_index r2 \<longrightarrow> findMatchingItems h r libraryItems = []"
  shows "map_of (matchReferencesToLibrary h references libraryItems) (ref_index r1)
           = Some (findMatchingItems h r2 libraryItems) \<and>
         (\<forall>ms. (ref_index r1, ms) \<in> set (matchReferencesToLibrary h references libraryItems)
            \<longrightarrow> ms = findMatchingItems h r2 libraryItems)"
proof -
  let ?M = "matchReferencesToLibrary h references libraryItems"
  let ?P = "\<lambda>r. ref_index r = ref_index r1 \<and> findMatchingItems h r libraryItems \<noteq> []"
  have "rev references = rev zs @ r2 # (rev ys @ r1 # rev xs)"
    by (simp add: assms(1))
  moreover have "\<forall>x \<in> set (rev zs). \<not> ?P x"
    using assms(2,5) by auto
  ultimately have "List.find ?P (rev references) = List.find ?P (r2 # (rev ys @ r1 # rev xs))"
    by (simp only: find_skip)
  also have "\<dots> = Some r2"
    using assms(2,4) by simp
  finally have look: "map_of ?M (ref_index r1) = Some (findMatchingItems h r2 libraryItems)"
    by (simp add: matchReferencesToLibrary_def fill_lookup)
  have "distinct (map fst ?M)"
    by (simp add: matchReferencesToLibrary_def fill_keys)
  then have "ms = findMatchingItems h r2 libraryItems" if "(ref_index r1, ms) \<in> set ?M" for ms
    using that look by simp
  with look show ?thesis by blast
qed

text \<open>C10, amended, on two references with index 1 and different match lists.\<close>

theorem later_reference_overwrites_witness:
  "[refWidgets, refAgain] = [] @ refWidgets # [] @ refAgain # [] \<and>
   ref_index refWidgets = ref_index refAgain \<and>
   findMatchingItems exHost refWidgets [itemOther, itemAgain, itemWidgets] \<noteq> [] \<and>
   findMatchingItems exHost refAgain [itemOther, itemAgain, itemWidgets] \<noteq> [] \<and>
   findMatchingItems exHost refWidgets [itemOther, itemAgain, itemWidgets]
     \<noteq> findMatchingItems exHost refAgain [itemOther, itemAgain, itemWidgets] \<and>
   map_of (matchReferencesToLibrary exHost [refWidgets, refAgain] [itemOther, itemAgain, itemWidgets]) 1
     = Some [\<lparr>itemId = js ''w2'', similarity = 1, mitem = itemAgain\<rparr>,
             \<lparr>itemId = js ''w1'', similarity = 2 / 3, mitem = itemWidgets\<rparr>]"
proof -
  have a: "findMatchingItems exHost refWidgets [itemOther, itemAgain, itemWidgets] \<noteq> []"
    and b: "findMatchingItems exHost refAgain [itemOther, itemAgain, itemWidgets] \<noteq> []"
    and c: "findMatchingItems exHost refWidgets [itemOther, itemAgain, itemWidgets]
      \<noteq> findMatchingItems exHost refAgain [itemOther, itemAgain, itemWidgets]"
    by (simp_all add: find_Widgets find_Again)
  have i: "ref_index refWidgets = ref_index refAgain"
    by (simp add: ref_indices)
  have l: "[refWidgets, refAgain] = [] @ refWidgets # [] @ refAgain # []"
    by simp
  have z: "\<forall>r \<in> set []. ref_index r = ref_index refAgain \<longrightarrow>
      findMatchingItems exHost r [itemOther, itemAgain, itemWidgets] = []"
    by simp
  from later_reference_overwrites [OF l i a b z] a b c i show ?thesis
    by (simp add: find_Again ref_indices)
qed

text \<open>
  Claim C10 as stated fails: of three references with index 1 that all have a match, the
  first two meet the conditions of the claim, and the map holds the list of the third,
  not the list of the second.
\<close>

theorem later_reference_not_last:
  "ref_index refWidgets = ref_index refAgain \<and>
   findMatchingItems exHost refWidgets [itemOther, itemAgain, itemWidgets] \<noteq> [] \<and>
   findMatchingItems exHost refAgain [itemOther, itemAgain, itemWidgets] \<noteq> [] \<and>
   map_of (matchReferencesToLibrary exHost [refWidgets, refAgain, refThird]
       [itemOther, itemAgain, itemWidgets]) (ref_index refWidgets)
     = Some (findMatchingItems exHost refThird [itemOther, itemAgain, itemWidgets]) \<and>
   map_of (matchReferencesToLibrary exHost [refWidgets, refAgain, refThird]
       [itemOther, itemAgain, itemWidgets]) (ref_index refWidgets)
     \<noteq> Some (findMatchingItems exHost refAgain [itemOther, itemAgain, itemWidgets])"
proof -
  have "ref_index refThird = 1"
    by (simp add: refThird_def)
  then show ?thesis
    by (simp add: matchReferencesToLibrary_def find_Widgets find_Again find_Third ref_indices)
qed

section \<open>Segmenting the reference list\<close>

lemma parse_scenario: "parseReferences textScenario = [recScenario]"
  by (simp add: textScenario_def recScenario_def cls ops pats fns)

lemma noYear: "\<not> test yearAny (trim lineNoYear)"
  by (simp add: lineNoYear_def cls ops pats)

lemma bracket:
  "test yearAny (trim lineBracket)"
  "stripNumber REFERENCE_NUMBER_PATTERNS (trim lineBracket) (1, trim lineBracket)
     = (2020, js ''no year is left in this text'')"
  "extractYear (js ''no year is left in this text'') = None"
  by (simp_all add: lineBracket_def cls ops pats fns)

text \<open>
  A greedy repetition succeeds only through its continuation, called after between
  \<open>mn\<close> and \<open>mx\<close> code units of the class; so group 1 of each year pattern holds four
  digits whenever the pattern matches.
\<close>

lemma repG_success:
  "repG p mn mx k b xs c = Some res \<Longrightarrow>
   \<exists>n \<le> length xs. mn \<le> n \<and> (\<forall>mm. mx = Some mm \<longrightarrow> n \<le> mm) \<and>
     (\<forall>x \<in> set (take n xs). p x) \<and>
     k (MS (rev (take n xs) @ b) (drop n xs) c) = Some res"
proof (induction xs arbitrary: mn mx b)
  case Nil
  then show ?case by (auto split: if_splits)
next
  case (Cons x xs)
  show ?case
  proof (cases "mx \<noteq> Some 0 \<and> p x \<and> repG p (mn - 1) (dec mx) k (x # b) xs c = Some res")
    case True
    from Cons.IH [of "mn - 1" "dec mx" "x # b"] True obtain n where
      n: "n \<le> length xs" "mn - 1 \<le> n" "\<forall>mm. dec mx = Some mm \<longrightarrow> n \<le> mm"
        "\<forall>y \<in> set (take n xs). p y"
        "k (MS (rev (take n xs) @ x # b) (drop n xs) c) = Some res"
      by blast
    have "\<forall>mm. mx = Some mm \<longrightarrow> Suc n \<le> mm"
      using n(3) True by (cases mx) auto
    with n True show ?thesis
      by (intro exI [of _ "Suc n"]) auto
  next
    case False
    with Cons.prems have "mn = 0 \<and> k (MS b (x # xs) c) = Some res"
      by (auto split: if_splits option.splits)
    then show ?thesis
      by (intro exI [of _ 0]) auto
  qed
qed

lemma run_year_group:
  assumes "run (Cap 1 (exactly 4 is_digit)) k s = Some res"
  shows "\<exists>s'. fourDigits (caps s' 1) \<and> k s' = Some res"
proof -
  let ?k = "\<lambda>s'. k (MS (before s') (rest s')
      ((caps s')(1 := Some (take (length (rest s) - length (rest s')) (rest s)))))"
  from assms have "repG is_digit 4 (Some 4) ?k (before s) (rest s) (caps s) = Some res"
    by (simp add: exactly_def)
  from repG_success [OF this] obtain n where
    n: "n \<le> length (rest s)" "4 \<le> n" "n \<le> 4" "\<forall>x \<in> set (take n (rest s)). is_digit x"
      "?k (MS (rev (take n (rest s)) @ before s) (drop n (rest s)) (caps s)) = Some res"
    by auto
  then have n4: "n = 4" by simp
  have "take (length (rest s) - length (drop 4 (rest s))) (rest s) = take 4 (rest s)"
    using n(1) n4 by simp
  moreover have "length (take 4 (rest s)) = 4"
    using n(1) n4 by simp
  ultimately show ?thesis
    using n(4,5) n4
    by (intro exI [of _ "MS (rev (take 4 (rest s)) @ before s) (drop 4 (rest s))
          ((caps s)(1 := Some (take 4 (rest s))))"])
       (simp add: fourDigits_def list_all_iff)
qed

lemma run_Chr_caps:
  assumes "run (Chr p) k s = Some res"
  shows "\<exists>s'. caps s' = caps s \<and> k s' = Some res"
proof -
  from assms obtain x xs where "k (MS (x # before s) xs (caps s)) = Some res"
    by (auto split: list.splits if_splits)
  then show ?thesis
    by (intro exI [of _ "MS (x # before s) xs (caps s)"]) simp
qed

lemma run_Wb_caps: "run Wb k s = Some res \<Longrightarrow> k s = Some res"
  by (auto split: if_splits)

lemma run_Rep_caps:
  assumes "run (Rep p mn mx True) k s = Some res"
  shows "\<exists>s'. caps s' = caps s \<and> k s' = Some res"
proof -
  from assms have "repG p mn mx k (before s) (rest s) (caps s) = Some res"
    by simp
  from repG_success [OF this] obtain n where
    "k (MS (rev (take n (rest s)) @ before s) (drop n (rest s)) (caps s)) = Some res"
    by blast
  then show ?thesis
    by (intro exI [of _ "MS (rev (take n (rest s)) @ before s) (drop n (rest s)) (caps s)"]) simp
qed

lemma run_Cat: "run (Cat a b) k = run a (run b k)"
  by (rule ext) simp

lemma yearParen_caps:
  assumes "run yearParen Some s = Some res"
  shows "fourDigits (caps res 1)"
proof -
  from assms have
    "run (Chr (ch CHR ''(''))
       (\<lambda>s'. run (Cap 1 (exactly 4 is_digit)) (\<lambda>s''. run (Chr (ch CHR '')'')) Some s'') s') s
     = Some res"
    by (simp only: yearParen_def cats.simps run_Cat)
  from run_Chr_caps [OF this] obtain s1 where
    "run (Cap 1 (exactly 4 is_digit)) (\<lambda>s''. run (Chr (ch CHR '')'')) Some s'') s1 = Some res"
    by blast
  from run_year_group [OF this] obtain s2 where
    s2: "fourDigits (caps s2 1)" "run (Chr (ch CHR '')'')) Some s2 = Some res"
    by blast
  from run_Chr_caps [OF s2(2)] s2(1) show ?thesis
    by auto
qed

lemma yearAny_caps:
  assumes "run yearAny Some s = Some res"
  shows "fourDigits (caps res 1)"
proof -
  from assms have
    "run Wb (\<lambda>s'. run (Cap 1 (exactly 4 is_digit)) (\<lambda>s''. run Wb Some s'') s') s = Some res"
    by (simp only: yearAny_def cats.simps run_Cat)
  from run_Wb_caps [OF this] have
    "run (Cap 1 (exactly 4 is_digit)) (\<lambda>s''. run Wb Some s'') s = Some res" .
  from run_year_group [OF this] obtain s2 where
    s2: "fourDigits (caps s2 1)" "run Wb Some s2 = Some res"
    by blast
  from run_Wb_caps [OF s2(2)] s2(1) show ?thesis
    by auto
qed

lemma yearPeriod_caps:
  assumes "run yearPeriod Some s = Some res"
  shows "fourDigits (caps res 1)"
proof -
  from assms have
    "run (Chr (ch CHR '',''))
       (\<lambda>s'. run (Rep is_space 1 None True)
          (\<lambda>s'. run (Cap 1 (exactly 4 is_digit)) (\<lambda>s''. run (Chr (ch CHR ''.'')) Some s'') s') s') s
     = Some res"
    by (simp only: yearPeriod_def plus1_def cats.simps run_Cat)
  from run_Chr_caps [OF this] obtain s0 where
    "run (Rep is_space 1 None True)
          (\<lambda>s'. run (Cap 1 (exactly 4 is_digit)) (\<lambda>s''. run (Chr (ch CHR ''.'')) Some s'') s') s0
     = Some res"
    by blast
  from run_Rep_caps [OF this] obtain s1 where
    "run (Cap 1 (exactly 4 is_digit)) (\<lambda>s''. run (Chr (ch CHR ''.'')) Some s'') s1 = Some res"
    by blast
  from run_year_group [OF this] obtain s2 where
    s2: "fourDigits (caps s2 1)" "run (Chr (ch CHR ''.'')) Some s2 = Some res"
    by blast
  from run_Chr_caps [OF s2(2)] s2(1) show ?thesis
    by auto
qed

lemma execFrom_group:
  assumes "\<And>s res. run r Some s = Some res \<Longrightarrow> P (caps res)"
  shows "execFrom r b xs = Some mt \<Longrightarrow> P (mgroup mt)"
proof (induction xs arbitrary: b)
  case Nil
  then show ?case
    using assms by (auto simp: matchAt_def split: option.splits)
next
  case (Cons x xs)
  then show ?case
    using assms by (auto simp: matchAt_def split: option.splits)
qed

lemma extractYear_fourDigits: "extractYear body = Some y \<Longrightarrow> fourDigits (Some y)"
proof -
  assume a: "extractYear body = Some y"
  have "fourDigits (mgroup mt 1)" if "exec yearParen body = Some mt" for mt
    using that execFrom_group [of yearParen "\<lambda>c. fourDigits (c 1)"] yearParen_caps
    unfolding exec_def by blast
  moreover have "fourDigits (mgroup mt 1)" if "exec yearPeriod body = Some mt" for mt
    using that execFrom_group [of yearPeriod "\<lambda>c. fourDigits (c 1)"] yearPeriod_caps
    unfolding exec_def by blast
  moreover have "fourDigits (mgroup mt 1)" if "exec yearAny body = Some mt" for mt
    using that execFrom_group [of yearAny "\<lambda>c. fourDigits (c 1)"] yearAny_caps
    unfolding exec_def by blast
  ultimately show ?thesis
    using a by (auto simp: extractYear_def split: option.splits)
qed

lemma fourDigitsD:
  "fourDigits y \<Longrightarrow> \<exists>d. y = Some d \<and> d \<noteq> [] \<and> length d = 4 \<and> list_all is_digit d"
  by (cases y) (auto simp: fourDigits_def)

lemma processLine_emits:
  "processLine references line = references \<or>
   (\<exists>index txt. truthy (extractYear txt) \<and>
      processLine references line = references @
        [\<lparr>ref_index = index, ref_text = substring0 txt 500, ref_doi = extractDoi txt,
          ref_authors = checkAuthors (extractAuthors (extractYear txt) txt),
          ref_title = extractTitle (extractYear txt) txt, ref_year = extractYear txt\<rparr>])"
proof -
  obtain idx body where
    "stripNumber REFERENCE_NUMBER_PATTERNS (trim line) (int (length references) + 1, trim line)
       = (idx, body)"
    by fastforce
  then show ?thesis
    by (auto simp: processLine_def Let_def)
qed

lemma parse_records:
  assumes "\<And>index txt. truthy (extractYear txt) \<Longrightarrow>
      P \<lparr>ref_index = index, ref_text = substring0 txt 500, ref_doi = extractDoi txt,
          ref_authors = checkAuthors (extractAuthors (extractYear txt) txt),
          ref_title = extractTitle (extractYear txt) txt, ref_year = extractYear txt\<rparr>"
    and "\<forall>x \<in> set references. P x"
  shows "\<forall>x \<in> set (foldl processLine references lines). P x"
  using assms(2)
proof (induction lines arbitrary: references)
  case Nil
  then show ?case by simp
next
  case (Cons l ls)
  have "\<forall>x \<in> set (processLine references l). P x"
    using processLine_emits [of references l] Cons.prems assms(1) by auto
  then show ?case
    using Cons.IH by simp
qed

lemma extractTitle_length: "extractTitle year txt = Some t \<Longrightarrow> length t \<le> 200"
  by (auto simp: extractTitle_def substring0_def split: option.splits if_splits)

lemma extractAuthors_length: "extractAuthors year txt = Some a \<Longrightarrow> length a \<le> 250"
  by (auto simp: extractAuthors_def substring0_def split: option.splits if_splits)

lemma checkAuthors_length:
  "checkAuthors (extractAuthors year txt) = Some a \<Longrightarrow> length a \<le> 250"
  by (auto simp: checkAuthors_def dest: extractAuthors_length split: option.splits if_splits)

text \<open>
  Claim C3: every record that \<open>parseReferences\<close> emits has a non-empty year (it is a
  string of four digits); a segment without a four-digit year token is not emitted, and
  neither is one whose text, after the reference number is removed, yields no year.
\<close>

theorem emitted_year_nonempty:
  "(\<forall>x \<in> set (parseReferences referencesText).
      \<exists>y. ref_year x = Some y \<and> y \<noteq> [] \<and> length y = 4 \<and> list_all is_digit y) \<and>
   (\<not> test yearAny (trim line) \<longrightarrow> processLine references line = references) \<and>
   (extractYear (snd (stripNumber REFERENCE_NUMBER_PATTERNS (trim line)
        (int (length references) + 1, trim line))) = None
      \<longrightarrow> processLine references line = references)"
proof -
  have "\<forall>x \<in> set (foldl processLine [] (splitLines referencesText)). fourDigits (ref_year x)"
  proof (rule parse_records)
    fix index body
    assume "truthy (extractYear body)"
    then obtain y where "extractYear body = Some y"
      by (cases "extractYear body") simp_all
    with extractYear_fourDigits [of body y]
    show "fourDigits (ref_year
        \<lparr>ref_index = index, ref_text = substring0 body 500, ref_doi = extractDoi body,
          ref_authors = checkAuthors (extractAuthors (extractYear body) body),
          ref_title = extractTitle (extractYear body) body, ref_year = extractYear body\<rparr>)"
      by simp
  qed simp
  then have "\<forall>x \<in> set (parseReferences referencesText).
      \<exists>y. ref_year x = Some y \<and> y \<noteq> [] \<and> length y = 4 \<and> list_all is_digit y"
    unfolding parseReferences_def
    by (blast dest: fourDigitsD)
  moreover have "\<not> test yearAny (trim line) \<longrightarrow> processLine references line = references"
    by (simp add: processLine_def Let_def)
  moreover have "extractYear (snd (stripNumber REFERENCE_NUMBER_PATTERNS (trim line)
        (int (length references) + 1, trim line))) = None
      \<longrightarrow> processLine references line = references"
    by (simp add: processLine_def Let_def split: prod.splits)
  ultimately show ?thesis by blast
qed

text \<open>
  C3 on the scenario of the specification, on a segment without a year and on a segment
  whose only four-digit token is its number.
\<close>

theorem emitted_year_nonempty_witness:
  "recScenario \<in> set (parseReferences textScenario) \<and>
   ref_year recScenario = Some (js ''2020'') \<and> js ''2020'' \<noteq> [] \<and>
   \<not> test yearAny (trim lineNoYear) \<and> processLine [] lineNoYear = [] \<and>
   test yearAny (trim lineBracket) \<and>
   extractYear (snd (stripNumber REFERENCE_NUMBER_PATTERNS (trim lineBracket)
      (int (length ([] :: ParsedReference list)) + 1, trim lineBracket))) = None \<and>
   processLine [] lineBracket = []"
proof -
  have a: "recScenario \<in> set (parseReferences textScenario)"
    by (simp add: parse_scenario)
  have b: "extractYear (snd (stripNumber REFERENCE_NUMBER_PATTERNS (trim lineBracket)
      (int (length ([] :: ParsedReference list)) + 1, trim lineBracket))) = None"
    by (simp add: bracket)
  have c: "ref_year recScenario = Some (js ''2020'')" "js ''2020'' \<noteq> []"
    by (simp_all add: recScenario_def js_def)
  from a b c noYear bracket(1) emitted_year_nonempty [of textScenario lineNoYear "[]"]
    emitted_year_nonempty [of textScenario lineBracket "[]"]
  show ?thesis by blast
qed

text \<open>
  Claim C7: in every record that \<open>parseReferences\<close> emits the text has at most 500 code
  units, the title, when present, at most 200, and the authors, when present, at most 250.
\<close>

theorem emitted_lengths:
  "\<forall>x \<in> set (parseReferences referencesText).
     length (ref_text x) \<le> 500 \<and>
     (\<forall>t. ref_title x = Some t \<longrightarrow> length t \<le> 200) \<and>
     (\<forall>a. ref_authors x = Some a \<longrightarrow> length a \<le> 250)"
  unfolding parseReferences_def
  by (rule parse_records)
     (auto simp: substring0_def dest: extractTitle_length checkAuthors_length)

text \<open>C7 on the scenario of the specification.\<close>

theorem emitted_lengths_witness:
  "recScenario \<in> set (parseReferences textScenario) \<and>
   length (ref_text recScenario) \<le> 500 \<and>
   ref_title recScenario = Some (js ''A Study of Widgets'') \<and>
   length (js ''A Study of Widgets'') \<le> 200 \<and>
   ref_authors recScenario = Some (js ''Smith, J.'') \<and>
   length (js ''Smith, J.'') \<le> 250"
proof -
  have a: "recScenario \<in> set (parseReferences textScenario)"
    by (simp add: parse_scenario)
  have b: "ref_title recScenario = Some (js ''A Study of Widgets'')"
    "ref_authors recScenario = Some (js ''Smith, J.'')"
    by (simp_all add: recScenario_def)
  from a b emitted_lengths [of textScenario] show ?thesis
    by blast
qed

text \<open>
  Claim C9: on the empty text \<open>parseReferences\<close> returns the empty list. No strategy
  splits the empty string, the loop body never runs, and no step on the way can throw.
\<close>

theorem parse_empty_text: "parseReferences [] = []"
  by (simp add: cls ops pats fns)

text \<open>
  Claim C5 fails on the code: the segment \<open>and (2020). A Study of Widgets. J.\<close> is emitted
  with the empty string as its authors. The authors pattern captures \<open>and \<close>, the leading
  \<open>and\<close> is stripped, and the check that clears implausible authors is guarded by the
  truthiness of the string, so it passes the empty string on.
\<close>

theorem empty_authors_emitted:
  "parseReferences textAnd =
     [\<lparr>ref_index = 1, ref_text = textAnd, ref_doi = None, ref_authors = Some [],
       ref_title = Some (js ''A Study of Widgets''), ref_year = Some (js ''2020'')\<rparr>]"
  by (simp add: textAnd_def cls ops pats fns)

section \<open>Locating the reference section\<close>

text \<open>
  Claim C4 fails on the code: in \<open>textHeader\<close> the second segment is the header, at offset
  42 of the text, so the offset after the header is 52; \<open>findReferencesSection\<close> returns
  10, the end of the first occurrence of the word, which lies in the first segment, a
  segment that matches no header pattern.
\<close>

theorem header_offset_of_first_occurrence:
  "findReferencesSection textHeader = 10 \<and>
   splitRe textHeader (Chr (oneOf [46, 10])) =
     [js ''References to prior work are given below'', js '' References'', js '' [1] Smith''] \<and>
   \<not> anyTest REFERENCE_SECTION_PATTERNS (trim (js ''References to prior work are given below'')) \<and>
   anyTest REFERENCE_SECTION_PATTERNS (trim (js '' References'')) \<and>
   trim (js '' References'') = take 10 (drop 42 textHeader) \<and>
   trim (js '' References'') = take 10 textHeader"
  by (simp add: textHeader_def cls ops pats fns)

end
